theory Spec2Isabelle
  imports Main "HOL-Library.Word"
begin

section \<open>The Host Orchestrator's bootstrap (host\_orchestrator/main.go)\<close>

text \<open>
  Go strings are byte sequences and are modelled as \<open>string\<close>. The process environment
  is a finite map from variable names to values: \<open>os.LookupEnv key\<close> returns the value
  and \<open>true\<close> when the variable is present (possibly with an empty value) and
  \<open>false\<close> when it is absent, which is \<open>env key\<close> being \<open>Some val\<close> or \<open>None\<close>.
\<close>

type_synonym environ = "string \<rightharpoonup> string"

subsection \<open>Constants\<close>

definition DefaultSocketPath :: string where
  "DefaultSocketPath = ''/run/cuttlefish/operator''"

definition DefaultHttpPort :: string where
  "DefaultHttpPort = ''1080''"

definition DefaultTLSCertDir :: string where
  "DefaultTLSCertDir = ''/etc/cuttlefish-common/host_orchestrator/cert''"

definition DefaultStaticFilesDir :: string where
  "DefaultStaticFilesDir = ''static''"

definition DefaultInterceptDir :: string where
  "DefaultInterceptDir = ''intercept''"

definition DefaultWebUIUrl :: string where
  "DefaultWebUIUrl = ''''"

definition defaultAndroidBuildURL :: string where
  "defaultAndroidBuildURL = ''https://androidbuildinternal.googleapis.com''"

definition defaultCVDBinAndroidBuildID :: string where
  "defaultCVDBinAndroidBuildID = ''10796991''"

definition defaultCVDBinAndroidBuildTarget :: string where
  "defaultCVDBinAndroidBuildTarget = ''aosp_cf_x86_64_phone-trunk_staging-userdebug''"

definition defaultCVDArtifactsDir :: string where
  "defaultCVDArtifactsDir = ''/var/lib/cuttlefish-common''"

subsection \<open>fromEnvOrDefault and maybeIntercept\<close>

definition fromEnvOrDefault :: "environ \<Rightarrow> string \<Rightarrow> string \<Rightarrow> string" where
  "fromEnvOrDefault env key def = (case env key of Some val \<Rightarrow> val | None \<Rightarrow> def)"

text \<open>
  \<open>maybeIntercept\<close> returns a pointer to a fresh string or \<open>nil\<close>; the pointer is an
  option. \<open>fmt.Sprintf("%s%s", a, b)\<close> is the concatenation of the two strings.
\<close>

definition maybeIntercept :: "string \<Rightarrow> string option" where
  "maybeIntercept path =
     (if path = ''/js/server_connector.js'' then Some (DefaultInterceptDir @ path) else None)"

subsection \<open>path/filepath.Join on a Unix host\<close>

text \<open>
  \<open>filepath.Join\<close> belongs to Go's standard library. On Unix it drops the leading empty
  elements, joins the rest with the separator and returns \<open>Clean\<close> of that string; with
  no non-empty element it returns the empty string. \<open>Clean\<close> writes its result through a
  \<open>lazybuf\<close>: a byte buffer \<open>buf\<close> and a write index \<open>w\<close>, the result being the first
  \<open>w\<close> bytes. The buffer's laziness (sharing the input while the output is a prefix of it)
  is an optimisation and is not modelled; the volume name is empty on Unix and
  \<open>FromSlash\<close> is the identity there.
\<close>

definition Separator :: char where
  "Separator = CHR ''/''"

definition IsPathSeparator :: "char \<Rightarrow> bool" where
  "IsPathSeparator c \<longleftrightarrow> c = Separator"

record lazybuf =
  buf :: string
  w :: nat

definition lazybuf_new :: lazybuf where
  "lazybuf_new = \<lparr>buf = [], w = 0\<rparr>"

definition lazybuf_index :: "lazybuf \<Rightarrow> nat \<Rightarrow> char" where
  "lazybuf_index b i = buf b ! i"

definition lazybuf_append :: "lazybuf \<Rightarrow> char \<Rightarrow> lazybuf" where
  "lazybuf_append b c = \<lparr>buf = take (w b) (buf b) @ [c], w = Suc (w b)\<rparr>"

definition lazybuf_string :: "lazybuf \<Rightarrow> string" where
  "lazybuf_string b = take (w b) (buf b)"

text \<open>
  The inner loop of the \<open>..\<close> case, entered after the first \<open>out.w--\<close>:
  \<open>for out.w > dotdot && !os.IsPathSeparator(out.index(out.w)) { out.w-- }\<close>.
  The third argument is the current \<open>out.w\<close>, the result its final value; the bytes
  read are below the write index the case started with.
\<close>

fun backtrack :: "lazybuf \<Rightarrow> nat \<Rightarrow> nat \<Rightarrow> nat" where
  "backtrack out dotdot 0 = 0"
| "backtrack out dotdot (Suc n) =
     (if Suc n > dotdot \<and> \<not> IsPathSeparator (lazybuf_index out (Suc n))
      then backtrack out dotdot n else Suc n)"

text \<open>
  The main loop \<open>for r < n\<close> of \<open>Clean\<close>. The argument \<open>p\<close> is the unread rest
  \<open>path[r:]\<close> of the input; the cases are tried in the order of the source's switch.
\<close>

function Clean_loop :: "bool \<Rightarrow> string \<Rightarrow> lazybuf \<Rightarrow> nat \<Rightarrow> lazybuf" where
  "Clean_loop rooted p out dotdot =
     (case p of
        [] \<Rightarrow> out
      | c # rest \<Rightarrow>
          if IsPathSeparator c then Clean_loop rooted rest out dotdot
          else if c = CHR ''.'' \<and> (rest = [] \<or> IsPathSeparator (hd rest))
            then Clean_loop rooted rest out dotdot
          else if c = CHR ''.'' \<and> hd rest = CHR ''.''
                  \<and> (tl rest = [] \<or> IsPathSeparator (hd (tl rest)))
            then (if w out > dotdot
                  then Clean_loop rooted (tl rest)
                         (out\<lparr>w := backtrack out dotdot (w out - 1)\<rparr>) dotdot
                  else if \<not> rooted
                  then (let out1 = (if w out > 0 then lazybuf_append out Separator else out);
                            out2 = lazybuf_append (lazybuf_append out1 (CHR ''.'')) (CHR ''.'')
                        in Clean_loop rooted (tl rest) out2 (w out2))
                  else Clean_loop rooted (tl rest) out dotdot)
          else (let out1 = (if rooted \<and> w out \<noteq> 1 \<or> \<not> rooted \<and> w out \<noteq> 0
                            then lazybuf_append out Separator else out);
                    out2 = foldl lazybuf_append out1 (takeWhile (\<lambda>x. \<not> IsPathSeparator x) p)
                in Clean_loop rooted (dropWhile (\<lambda>x. \<not> IsPathSeparator x) p) out2 dotdot))"
  by pat_completeness auto
termination
proof (relation "measure (\<lambda>(rooted, p, out, dotdot). length p)", goal_cases)
  case 1
  show ?case by simp
next
  case (7 rooted p out dotdot c rest)
  then have "length (dropWhile (\<lambda>x. \<not> IsPathSeparator x) (c # rest)) \<le> length rest"
    by (simp add: length_dropWhile_le)
  with 7 show ?case by simp
qed (auto simp: less_Suc_eq_le intro: le_trans [OF diff_le_self])

definition Clean :: "string \<Rightarrow> string" where
  "Clean path =
     (if path = [] then ''.''
      else (let rooted = IsPathSeparator (hd path);
                out0 = (if rooted then lazybuf_append lazybuf_new Separator else lazybuf_new);
                r = (if rooted then 1 else 0);
                out1 = Clean_loop rooted (drop r path) out0 r;
                out2 = (if w out1 = 0 then lazybuf_append out1 (CHR ''.'') else out1)
            in lazybuf_string out2))"

fun strings_Join :: "string list \<Rightarrow> string \<Rightarrow> string" where
  "strings_Join [] sep = []"
| "strings_Join [e] sep = e"
| "strings_Join (e # es) sep = e @ sep @ strings_Join es sep"

fun filepath_Join :: "string list \<Rightarrow> string" where
  "filepath_Join [] = []"
| "filepath_Join (e # es) =
     (if e \<noteq> [] then Clean (strings_Join (e # es) [Separator]) else filepath_Join es)"

subsection \<open>The collaborators' data, as main fills it in\<close>

text \<open>
  The structs of the \<open>orchestrator\<close> and \<open>debug\<close> packages are records with the fields
  that \<open>main\<close> sets. \<open>NameFactory\<close> (a fresh UUID at each call) is left out of
  \<open>UserArtifactsManagerOpts\<close>, its only field besides the root directory.
\<close>

record IMPaths =
  RootDir :: string
  CVDToolsDir :: string
  ArtifactsRootDir :: string
  RuntimesRootDir :: string

record UserArtifactsManagerOpts =
  UAM_RootDir :: string

record AndroidBuild =
  ID :: string
  Target :: string

record StaticVariables =
  InitialCVDBinAndroidBuildID :: string
  InitialCVDBinAndroidBuildTarget :: string

record Config =
  Paths :: IMPaths
  CVDToolsVersion :: AndroidBuild
  AndroidBuildServiceURL :: string
  CVDUser :: string

text \<open>\<open>time.Duration\<close> is an \<open>int64\<close> count of nanoseconds.\<close>

type_synonym Duration = "64 word"

definition Nanosecond :: Duration where
  "Nanosecond = 1"

definition Microsecond :: Duration where
  "Microsecond = 1000 * Nanosecond"

definition Millisecond :: Duration where
  "Millisecond = 1000 * Microsecond"

definition Second :: Duration where
  "Second = 1000 * Millisecond"

definition Minute :: Duration where
  "Minute = 60 * Second"

text \<open>
  The collaborators that \<open>main\<close> builds are objects on a heap: a list of objects in
  the order of their construction, an object's address (\<open>ref\<close>) being its position.
  A manager is a black box and is the constructor call that made it. The controller
  holds the addresses of the managers it was given. The router made by
  \<open>CreateHttpHandlers\<close> records what \<open>main\<close> registers on it afterwards: the
  controller whose routes were added and the catch-all handler. The ICE configuration
  and \<open>maybeIntercept\<close>, also passed to \<open>CreateHttpHandlers\<close>, are constants and are
  left out of the router.
\<close>

type_synonym ref = nat

record Controller =
  Controller_Config :: Config
  OperationManager :: ref
  WaitOperationDuration :: Duration
  UserArtifactsManager :: ref
  DebugVariablesManager :: ref

record Router =
  router_pool :: ref
  router_polledSet :: ref
  controller_routes :: "ref option"
  catch_all :: "ref option"

datatype 'u Handler =
    ReverseProxy "'u option"
  | FileServer string

datatype 'u object =
    NewDevicePool
  | NewPolledSet
  | NewMapOM
  | NewUserArtifactsManagerImpl UserArtifactsManagerOpts
  | NewVariablesManager StaticVariables
  | CreateHttpHandlers Router
  | Controller_value Controller
  | Handler_value "'u Handler"

record 'u world =
  heap :: "'u object list"
  DefaultServeMux :: "ref option"

subsection \<open>main: configuration resolution\<close>

definition socketPath :: "environ \<Rightarrow> string" where
  "socketPath env = fromEnvOrDefault env ''ORCHESTRATOR_SOCKET_PATH'' DefaultSocketPath"

definition httpPort :: "environ \<Rightarrow> string" where
  "httpPort env = fromEnvOrDefault env ''ORCHESTRATOR_HTTP_PORT'' DefaultHttpPort"

definition httpsPort :: "environ \<Rightarrow> string" where
  "httpsPort env = fromEnvOrDefault env ''ORCHESTRATOR_HTTPS_PORT'' []"

definition tlsCertDir :: "environ \<Rightarrow> string" where
  "tlsCertDir env = fromEnvOrDefault env ''ORCHESTRATOR_TLS_CERT_DIR'' DefaultTLSCertDir"

definition webUIUrlStr :: "environ \<Rightarrow> string" where
  "webUIUrlStr env = fromEnvOrDefault env ''ORCHESTRATOR_WEBUI_URL'' DefaultWebUIUrl"

definition certPath :: "environ \<Rightarrow> string" where
  "certPath env = filepath_Join [tlsCertDir env, ''cert.pem'']"

definition keyPath :: "environ \<Rightarrow> string" where
  "keyPath env = filepath_Join [tlsCertDir env, ''key.pem'']"

definition cvdUser :: "environ \<Rightarrow> string" where
  "cvdUser env = fromEnvOrDefault env ''ORCHESTRATOR_CVD_USER'' []"

definition abURL :: "environ \<Rightarrow> string" where
  "abURL env = fromEnvOrDefault env ''ORCHESTRATOR_ANDROID_BUILD_URL'' defaultAndroidBuildURL"

definition cvdBinAndroidBuildID :: "environ \<Rightarrow> string" where
  "cvdBinAndroidBuildID env =
     fromEnvOrDefault env ''ORCHESTRATOR_CVDBIN_ANDROID_BUILD_ID'' defaultCVDBinAndroidBuildID"

definition cvdBinAndroidBuildTarget :: "environ \<Rightarrow> string" where
  "cvdBinAndroidBuildTarget env =
     fromEnvOrDefault env ''ORCHESTRATOR_CVDBIN_ANDROID_BUILD_TARGET''
       defaultCVDBinAndroidBuildTarget"

definition imRootDir :: "environ \<Rightarrow> string" where
  "imRootDir env = fromEnvOrDefault env ''ORCHESTRATOR_CVD_ARTIFACTS_DIR'' defaultCVDArtifactsDir"

subsection \<open>main: the subsystems\<close>

definition imPaths :: "environ \<Rightarrow> IMPaths" where
  "imPaths env =
     \<lparr>RootDir = imRootDir env,
      CVDToolsDir = imRootDir env,
      ArtifactsRootDir = filepath_Join [imRootDir env, ''artifacts''],
      RuntimesRootDir = filepath_Join [imRootDir env, ''runtimes'']\<rparr>"

definition uamOpts :: "environ \<Rightarrow> UserArtifactsManagerOpts" where
  "uamOpts env = \<lparr>UAM_RootDir = filepath_Join [imRootDir env, ''user_artifacs'']\<rparr>"

definition cvdToolsVersion :: "environ \<Rightarrow> AndroidBuild" where
  "cvdToolsVersion env =
     \<lparr>ID = cvdBinAndroidBuildID env, Target = cvdBinAndroidBuildTarget env\<rparr>"

definition debugStaticVars :: "environ \<Rightarrow> StaticVariables" where
  "debugStaticVars env =
     \<lparr>InitialCVDBinAndroidBuildID = ID (cvdToolsVersion env),
      InitialCVDBinAndroidBuildTarget = Target (cvdToolsVersion env)\<rparr>"

text \<open>
  Lines 109 to 155 of \<open>main\<close>, statement by statement: each constructor call puts its
  object at the next free address and yields that address, \<open>imController\<close> is built
  from the addresses of the managers built before it, and \<open>imController.AddRoutes(r)\<close>
  updates the router. The result is the heap with the addresses of the router and of
  the controller.
\<close>

definition alloc :: "'o \<Rightarrow> 'o list \<Rightarrow> ref \<times> 'o list" where
  "alloc obj h = (length h, h @ [obj])"

definition update_router :: "(Router \<Rightarrow> Router) \<Rightarrow> ref \<Rightarrow> 'u object list \<Rightarrow> 'u object list" where
  "update_router f r h =
     (if r < length h
      then (case h ! r of CreateHttpHandlers rt \<Rightarrow> h[r := CreateHttpHandlers (f rt)] | _ \<Rightarrow> h)
      else h)"

definition AddRoutes :: "ref \<Rightarrow> ref \<Rightarrow> 'u object list \<Rightarrow> 'u object list" where
  "AddRoutes c r h = update_router (\<lambda>rt. rt\<lparr>controller_routes := Some c\<rparr>) r h"

definition PathPrefix_Handler :: "ref \<Rightarrow> ref \<Rightarrow> 'u object list \<Rightarrow> 'u object list" where
  "PathPrefix_Handler handler r h = update_router (\<lambda>rt. rt\<lparr>catch_all := Some handler\<rparr>) r h"

definition subsystems :: "environ \<Rightarrow> 'u object list \<times> ref \<times> ref" where
  "subsystems env =
     (let (pool, h) = alloc NewDevicePool [];
          (polledSet, h) = alloc NewPolledSet h;
          (om, h) = alloc NewMapOM h;
          (uam, h) = alloc (NewUserArtifactsManagerImpl (uamOpts env)) h;
          (debugVarsManager, h) = alloc (NewVariablesManager (debugStaticVars env)) h;
          (r, h) = alloc (CreateHttpHandlers
                     \<lparr>router_pool = pool, router_polledSet = polledSet,
                      controller_routes = None, catch_all = None\<rparr>) h;
          (imController, h) = alloc (Controller_value
                     \<lparr>Controller_Config =
                        \<lparr>Paths = imPaths env,
                         CVDToolsVersion = cvdToolsVersion env,
                         AndroidBuildServiceURL = abURL env,
                         CVDUser = cvdUser env\<rparr>,
                      OperationManager = om,
                      WaitOperationDuration = 2 * Minute,
                      UserArtifactsManager = uam,
                      DebugVariablesManager = debugVarsManager\<rparr>) h;
          h = AddRoutes imController r h
      in (h, r, imController))"

subsection \<open>net/url.Parse and httputil.NewSingleHostReverseProxy\<close>

text \<open>
  Both belong to Go's standard library. \<open>url.Parse\<close> cuts the fragment off at the first
  \<open>#\<close>; on what is before it, it rejects a control byte (below \<open>0x20\<close>, or \<open>0x7f\<close>;
  since Go 1.12) and then runs \<open>getScheme\<close>, which rejects a string that starts with a colon. In both
  cases \<open>Parse\<close> returns \<open>nil\<close> and a \<open>url.Error\<close> holding the operation, the string
  and the cause. These checks are modelled. What \<open>Parse\<close> does once \<open>getScheme\<close> has
  succeeded (authority, host and port, path, escapes, fragment), where it can fail as
  well, is the parameter \<open>parse_rest\<close>.
\<close>

datatype url_Error = url_Error string string string

definition stringContainsCTLByte :: "string \<Rightarrow> bool" where
  "stringContainsCTLByte s = list_ex (\<lambda>b. (of_char b :: nat) < 32 \<or> (of_char b :: nat) = 127) s"

definition is_letter :: "char \<Rightarrow> bool" where
  "is_letter c \<longleftrightarrow>
     (let n = (of_char c :: nat) in 97 \<le> n \<and> n \<le> 122 \<or> 65 \<le> n \<and> n \<le> 90)"

definition is_digit :: "char \<Rightarrow> bool" where
  "is_digit c \<longleftrightarrow> (let n = (of_char c :: nat) in 48 \<le> n \<and> n \<le> 57)"

text \<open>
  The loop of \<open>getScheme\<close> over the bytes of \<open>rawURL\<close>: \<open>i\<close> is the index of the byte
  \<open>c\<close> at the head of the unread rest. The result is an error, or the scheme and the
  string after it.
\<close>

fun getScheme_loop :: "string \<Rightarrow> nat \<Rightarrow> string \<Rightarrow> string + string \<times> string" where
  "getScheme_loop rawURL i [] = Inr ([], rawURL)"
| "getScheme_loop rawURL i (c # cs) =
     (if is_letter c then getScheme_loop rawURL (Suc i) cs
      else if is_digit c \<or> c = CHR ''+'' \<or> c = CHR ''-'' \<or> c = CHR ''.''
        then (if i = 0 then Inr ([], rawURL) else getScheme_loop rawURL (Suc i) cs)
      else if c = CHR '':''
        then (if i = 0 then Inl ''missing protocol scheme''
              else Inr (take i rawURL, drop (Suc i) rawURL))
      else Inr ([], rawURL))"

definition getScheme :: "string \<Rightarrow> string + string \<times> string" where
  "getScheme rawURL = getScheme_loop rawURL 0 rawURL"

definition url_Parse :: "(string \<Rightarrow> url_Error + 'u) \<Rightarrow> string \<Rightarrow> url_Error + 'u" where
  "url_Parse parse_rest rawURL =
     (let u = takeWhile (\<lambda>c. c \<noteq> CHR ''#'') rawURL
      in if stringContainsCTLByte u
         then Inl (url_Error ''parse'' u ''net/url: invalid control character in URL'')
         else (case getScheme u of
                 Inl err \<Rightarrow> Inl (url_Error ''parse'' u err)
               | Inr (scheme, rest) \<Rightarrow> parse_rest rawURL))"

text \<open>
  \<open>httputil.NewSingleHostReverseProxy(target)\<close> depends on the toolchain that builds
  the program. Before Go 1.20 it reads \<open>target.RawQuery\<close> when it is called, which is a
  nil-pointer panic for a \<open>nil\<close> target: \<open>main\<close> does not recover, so the process ends
  there. From Go 1.20 on it only stores the target in the handler it returns. The
  toolchain is not fixed by the source and is a parameter.
\<close>

datatype toolchain = Go_before_1_20 | Go_1_20_or_later

datatype panic = nil_pointer_dereference

definition NewSingleHostReverseProxy :: "toolchain \<Rightarrow> 'u option \<Rightarrow> panic + 'u Handler" where
  "NewSingleHostReverseProxy tc target =
     (case tc of
        Go_before_1_20 \<Rightarrow>
          (case target of
             None \<Rightarrow> Inl nil_pointer_dereference
           | Some u \<Rightarrow> Inr (ReverseProxy target))
      | Go_1_20_or_later \<Rightarrow> Inr (ReverseProxy target))"

subsection \<open>main: the catch-all handler and the listeners\<close>

text \<open>
  \<open>main\<close> is given \<open>url.Parse\<close> as the parameter \<open>Parse\<close>. It keeps the URL that
  \<open>Parse\<close> returns and drops the error, so the proxy's target is a pointer that is
  \<open>nil\<close> when parsing failed. \<open>catchAll\<close> is the handler that lines 158 to 165 build,
  or the panic that ends \<open>main\<close> there.
\<close>

type_synonym error = string

definition catchAll :: "toolchain \<Rightarrow> (string \<Rightarrow> 'e + 'u) \<Rightarrow> environ \<Rightarrow> panic + 'u Handler" where
  "catchAll tc Parse env =
     (if length (webUIUrlStr env) > 0
      then (let webUIUrl = (case Parse (webUIUrlStr env) of Inr u \<Rightarrow> Some u | Inl err \<Rightarrow> None)
            in NewSingleHostReverseProxy tc webUIUrl)
      else Inr (FileServer DefaultStaticFilesDir))"

text \<open>
  A starter is a closure of type \<open>func() error\<close>; here it is the call the closure makes,
  with the arguments \<open>main\<close> resolved (the device pool and the ICE configuration passed
  to \<open>SetupDeviceEndpoint\<close> do not depend on the environment and are left out).
\<close>

datatype starter =
    SetupDeviceEndpoint string
  | startHttpServer string
  | startHttpsServer string string string

definition starters :: "environ \<Rightarrow> starter list" where
  "starters env =
     (let starters0 = [SetupDeviceEndpoint (socketPath env), startHttpServer (httpPort env)]
      in if httpsPort env \<noteq> []
         then starters0 @ [startHttpsServer (httpsPort env) (certPath env) (keyPath env)]
         else starters0)"

text \<open>
  The whole of \<open>main\<close> up to the call of \<open>start\<close>: the subsystems, then the catch-all
  handler, which is put on the heap and registered on the router, then
  \<open>http.Handle("/", r)\<close>. The result is the panic that ended \<open>main\<close>, or the world in
  which \<open>start\<close> is called together with the starters it is called on.
  \<open>catch_all_of\<close> reads, in such a world, the handler that the router registered on
  the default mux falls back to.
\<close>

definition main :: "toolchain \<Rightarrow> (string \<Rightarrow> 'e + 'u) \<Rightarrow> environ \<Rightarrow> panic + 'u world \<times> starter list" where
  "main tc Parse env =
     (let (h, r, imController) = subsystems env
      in case catchAll tc Parse env of
           Inl p \<Rightarrow> Inl p
         | Inr handler \<Rightarrow>
             (let (a, h) = alloc (Handler_value handler) h;
                  h = PathPrefix_Handler a r h
              in Inr (\<lparr>heap = h, DefaultServeMux = Some r\<rparr>, starters env)))"

definition catch_all_of :: "'u world \<Rightarrow> 'u Handler option" where
  "catch_all_of wd =
     (case DefaultServeMux wd of
        None \<Rightarrow> None
      | Some r \<Rightarrow>
          (case heap wd ! r of
             CreateHttpHandlers rt \<Rightarrow>
               (case catch_all rt of
                  None \<Rightarrow> None
                | Some a \<Rightarrow> (case heap wd ! a of Handler_value handler \<Rightarrow> Some handler | _ \<Rightarrow> None))
           | _ \<Rightarrow> None))"

subsection \<open>start: the listener supervisor\<close>

text \<open>
  \<open>start\<close> adds the number of starters to a wait group, launches one goroutine per
  starter and waits for the group. Each goroutine calls its starter; when the call
  returns an error it calls \<open>log.Fatal\<close>, which prints the error and ends the process
  with \<open>os.Exit(1)\<close> (deferred calls do not run); when the call returns \<open>nil\<close> the
  deferred \<open>wg.Done\<close> runs. When \<open>wg.Wait\<close> returns, \<open>start\<close> and then \<open>main\<close>
  return, which ends the process with status 0.

  The goroutines interleave. The model is a step function on the state of the process,
  driven by a schedule: the list of the threads that take the next step, \<open>Main\<close> or the
  goroutine of starter \<open>k\<close>. A step that the thread cannot take (it is blocked, it has
  ended, or the process has exited) is \<open>None\<close>. What a starter does when it is called
  is its outcome: it serves forever, or it returns \<open>nil\<close> or an error, after any delay.
  The field \<open>calls\<close> is not in the source: it counts, for each starter, how many times
  it has been called, so that a restart would show. The line that \<open>log.Fatal\<close> prints
  is not modelled.
\<close>

datatype outcome = Blocks | Returns "error option"

datatype goroutine = Unspawned | Spawned | Calling | Returned "error option" | Finished

datatype pc = Loop nat | Waiting | Done

datatype action = Main | Go nat

record process =
  pc :: pc
  counter :: int
  goroutines :: "goroutine list"
  calls :: "nat list"
  exit_status :: "int option"

text \<open>The state after \<open>wg.Add(len(starters))\<close>, before the first iteration of the loop.\<close>

definition init :: "outcome list \<Rightarrow> process" where
  "init fs =
     \<lparr>pc = Loop 0, counter = int (length fs),
      goroutines = replicate (length fs) Unspawned,
      calls = replicate (length fs) 0,
      exit_status = None\<rparr>"

definition main_step :: "outcome list \<Rightarrow> process \<Rightarrow> process option" where
  "main_step fs s =
     (case pc s of
        Loop i \<Rightarrow>
          if i < length fs
          then Some (s\<lparr>goroutines := (goroutines s)[i := Spawned], pc := Loop (Suc i)\<rparr>)
          else Some (s\<lparr>pc := Waiting\<rparr>)
      | Waiting \<Rightarrow>
          if counter s = 0 then Some (s\<lparr>pc := Done, exit_status := Some 0\<rparr>) else None
      | Done \<Rightarrow> None)"

definition go_step :: "outcome list \<Rightarrow> nat \<Rightarrow> process \<Rightarrow> process option" where
  "go_step fs k s =
     (case goroutines s ! k of
        Unspawned \<Rightarrow> None
      | Spawned \<Rightarrow>
          Some (s\<lparr>goroutines := (goroutines s)[k := Calling],
                  calls := (calls s)[k := Suc (calls s ! k)]\<rparr>)
      | Calling \<Rightarrow>
          (case fs ! k of
             Blocks \<Rightarrow> None
           | Returns err \<Rightarrow> Some (s\<lparr>goroutines := (goroutines s)[k := Returned err]\<rparr>))
      | Returned err \<Rightarrow>
          (case err of
             Some e \<Rightarrow> Some (s\<lparr>exit_status := Some 1\<rparr>)
           | None \<Rightarrow>
               Some (s\<lparr>counter := counter s - 1,
                       goroutines := (goroutines s)[k := Finished]\<rparr>))
      | Finished \<Rightarrow> None)"

definition step :: "outcome list \<Rightarrow> action \<Rightarrow> process \<Rightarrow> process option" where
  "step fs a s =
     (if exit_status s \<noteq> None then None
      else (case a of
              Main \<Rightarrow> main_step fs s
            | Go k \<Rightarrow> if k < length fs then go_step fs k s else None))"

fun run :: "outcome list \<Rightarrow> action list \<Rightarrow> process \<Rightarrow> process option" where
  "run fs [] s = Some s"
| "run fs (a # as) s = (case step fs a s of None \<Rightarrow> None | Some s' \<Rightarrow> run fs as s')"

definition start :: "outcome list \<Rightarrow> action list \<Rightarrow> process option" where
  "start fs sched = run fs sched (init fs)"

subsection \<open>An invariant of the supervisor\<close>

text \<open>
  The goroutines that have not yet called \<open>wg.Done\<close>, and the facts that hold in every
  state a schedule can reach: the wait-group counter is the number of such goroutines,
  a starter has been called exactly when its goroutine has got past its call, a goroutine
  holds the result its starter returns, the loop has launched exactly the goroutines
  below its index, and status 0 is only reached when every goroutine has finished.
\<close>

definition unfinished :: "goroutine list \<Rightarrow> nat set" where
  "unfinished gs = {k. k < length gs \<and> gs ! k \<noteq> Finished}"

definition goroutine_ok :: "outcome list \<Rightarrow> process \<Rightarrow> nat \<Rightarrow> bool" where
  "goroutine_ok fs s k =
     (case goroutines s ! k of
        Unspawned \<Rightarrow> calls s ! k = 0 \<and> (\<exists>i. pc s = Loop i \<and> i \<le> k)
      | Spawned \<Rightarrow> calls s ! k = 0
      | Calling \<Rightarrow> calls s ! k = 1
      | Returned r \<Rightarrow> calls s ! k = 1 \<and> fs ! k = Returns r
      | Finished \<Rightarrow> calls s ! k = 1 \<and> fs ! k = Returns None)"

definition inv :: "outcome list \<Rightarrow> process \<Rightarrow> bool" where
  "inv fs s \<longleftrightarrow>
     length (goroutines s) = length fs
   \<and> length (calls s) = length fs
   \<and> counter s = int (card (unfinished (goroutines s)))
   \<and> (\<forall>k < length fs. goroutine_ok fs s k)
   \<and> (\<forall>i k. pc s = Loop i \<longrightarrow> i \<le> k \<longrightarrow> k < length fs \<longrightarrow> goroutines s ! k = Unspawned)
   \<and> (exit_status s = None \<or> exit_status s = Some 0 \<or> exit_status s = Some 1)
   \<and> (exit_status s = Some 0 \<longrightarrow> unfinished (goroutines s) = {})
   \<and> (pc s = Done \<longrightarrow> exit_status s = Some 0)"

section \<open>Properties\<close>

declare Clean_loop.simps [simp del]

lemmas constant_defs =
  DefaultSocketPath_def DefaultHttpPort_def DefaultTLSCertDir_def DefaultStaticFilesDir_def
  DefaultInterceptDir_def DefaultWebUIUrl_def defaultAndroidBuildURL_def
  defaultCVDBinAndroidBuildID_def defaultCVDBinAndroidBuildTarget_def
  defaultCVDArtifactsDir_def

lemmas resolved_defs =
  socketPath_def httpPort_def httpsPort_def tlsCertDir_def webUIUrlStr_def cvdUser_def
  abURL_def cvdBinAndroidBuildID_def cvdBinAndroidBuildTarget_def imRootDir_def

subsection \<open>The interception rule\<close>

text \<open>
  C2. \<open>maybeIntercept\<close> is defined on every path (it has no loop and cannot panic). On
  exactly \<open>/js/server_connector.js\<close> it yields \<open>intercept/js/server_connector.js\<close>; on
  every other path, among them the empty string and that path followed by a query
  component, it yields no replacement.
\<close>

theorem maybeIntercept_exact:
  "maybeIntercept ''/js/server_connector.js'' = Some ''intercept/js/server_connector.js''
   \<and> (\<forall>path. path \<noteq> ''/js/server_connector.js'' \<longrightarrow> maybeIntercept path = None)
   \<and> maybeIntercept [] = None
   \<and> maybeIntercept ''/js/server_connector.js?v=1'' = None"
  by (simp add: maybeIntercept_def DefaultInterceptDir_def)

theorem maybeIntercept_exact_witness:
  "''/index.html'' \<noteq> ''/js/server_connector.js'' \<and> maybeIntercept ''/index.html'' = None"
proof -
  have ne: "''/index.html'' \<noteq> ''/js/server_connector.js''"
    by simp
  have "maybeIntercept ''/index.html'' = None"
    by (rule maybeIntercept_exact [THEN conjunct2, THEN conjunct1, rule_format, OF ne])
  with ne show ?thesis
    by (rule conjI)
qed

subsection \<open>Configuration resolution\<close>

text \<open>
  C3. Each of the ten recognised keys resolves to a string without any failure case:
  to the fixed default of the source when the variable is unset, and to the value
  \<open>V\<close>, unchanged, when the variable is set to \<open>V\<close>.
\<close>

theorem config_resolution:
  "socketPath env =
     (case env ''ORCHESTRATOR_SOCKET_PATH'' of None \<Rightarrow> ''/run/cuttlefish/operator'' | Some V \<Rightarrow> V)
   \<and> httpPort env = (case env ''ORCHESTRATOR_HTTP_PORT'' of None \<Rightarrow> ''1080'' | Some V \<Rightarrow> V)
   \<and> httpsPort env = (case env ''ORCHESTRATOR_HTTPS_PORT'' of None \<Rightarrow> [] | Some V \<Rightarrow> V)
   \<and> tlsCertDir env =
     (case env ''ORCHESTRATOR_TLS_CERT_DIR'' of
        None \<Rightarrow> ''/etc/cuttlefish-common/host_orchestrator/cert'' | Some V \<Rightarrow> V)
   \<and> webUIUrlStr env = (case env ''ORCHESTRATOR_WEBUI_URL'' of None \<Rightarrow> [] | Some V \<Rightarrow> V)
   \<and> cvdUser env = (case env ''ORCHESTRATOR_CVD_USER'' of None \<Rightarrow> [] | Some V \<Rightarrow> V)
   \<and> abURL env =
     (case env ''ORCHESTRATOR_ANDROID_BUILD_URL'' of
        None \<Rightarrow> ''https://androidbuildinternal.googleapis.com'' | Some V \<Rightarrow> V)
   \<and> cvdBinAndroidBuildID env =
     (case env ''ORCHESTRATOR_CVDBIN_ANDROID_BUILD_ID'' of None \<Rightarrow> ''10796991'' | Some V \<Rightarrow> V)
   \<and> cvdBinAndroidBuildTarget env =
     (case env ''ORCHESTRATOR_CVDBIN_ANDROID_BUILD_TARGET'' of
        None \<Rightarrow> ''aosp_cf_x86_64_phone-trunk_staging-userdebug'' | Some V \<Rightarrow> V)
   \<and> imRootDir env =
     (case env ''ORCHESTRATOR_CVD_ARTIFACTS_DIR'' of
        None \<Rightarrow> ''/var/lib/cuttlefish-common'' | Some V \<Rightarrow> V)"
  by (simp add: resolved_defs fromEnvOrDefault_def constant_defs)

text \<open>
  C10. A variable that is present with the empty string as its value resolves to the
  empty string, not to the default, for each of the ten keys. So an empty
  \<open>ORCHESTRATOR_HTTPS_PORT\<close> leaves the TLS listener out, as an absent one does, and an
  empty \<open>ORCHESTRATOR_HTTP_PORT\<close> makes the HTTP listener's port empty instead of
  \<open>1080\<close>.
\<close>

theorem empty_value_overrides_default:
  "socketPath (env(''ORCHESTRATOR_SOCKET_PATH'' \<mapsto> [])) = []
   \<and> httpPort (env(''ORCHESTRATOR_HTTP_PORT'' \<mapsto> [])) = []
   \<and> httpsPort (env(''ORCHESTRATOR_HTTPS_PORT'' \<mapsto> [])) = []
   \<and> tlsCertDir (env(''ORCHESTRATOR_TLS_CERT_DIR'' \<mapsto> [])) = []
   \<and> webUIUrlStr (env(''ORCHESTRATOR_WEBUI_URL'' \<mapsto> [])) = []
   \<and> cvdUser (env(''ORCHESTRATOR_CVD_USER'' \<mapsto> [])) = []
   \<and> abURL (env(''ORCHESTRATOR_ANDROID_BUILD_URL'' \<mapsto> [])) = []
   \<and> cvdBinAndroidBuildID (env(''ORCHESTRATOR_CVDBIN_ANDROID_BUILD_ID'' \<mapsto> [])) = []
   \<and> cvdBinAndroidBuildTarget (env(''ORCHESTRATOR_CVDBIN_ANDROID_BUILD_TARGET'' \<mapsto> [])) = []
   \<and> imRootDir (env(''ORCHESTRATOR_CVD_ARTIFACTS_DIR'' \<mapsto> [])) = []
   \<and> starters (env(''ORCHESTRATOR_HTTPS_PORT'' \<mapsto> [])) =
       [SetupDeviceEndpoint (socketPath env), startHttpServer (httpPort env)]
   \<and> httpPort (env(''ORCHESTRATOR_HTTP_PORT'' \<mapsto> [])) \<noteq> DefaultHttpPort
   \<and> starters (env(''ORCHESTRATOR_HTTP_PORT'' \<mapsto> [])) ! 1 = startHttpServer []"
  by (simp add: starters_def resolved_defs fromEnvOrDefault_def constant_defs Let_def)

subsection \<open>Derived paths\<close>

text \<open>
  C7. Whatever the environment, the certificate path is \<open>filepath.Join\<close> of the resolved
  certificate directory and \<open>cert.pem\<close>, and the key path is \<open>filepath.Join\<close> of that
  directory and \<open>key.pem\<close>; evaluated for the default directory and for a directory
  taken from the environment.
\<close>

theorem tls_paths:
  "certPath env = filepath_Join [tlsCertDir env, ''cert.pem'']
   \<and> keyPath env = filepath_Join [tlsCertDir env, ''key.pem'']
   \<and> certPath Map.empty = ''/etc/cuttlefish-common/host_orchestrator/cert/cert.pem''
   \<and> keyPath Map.empty = ''/etc/cuttlefish-common/host_orchestrator/cert/key.pem''
   \<and> certPath [''ORCHESTRATOR_TLS_CERT_DIR'' \<mapsto> ''/tmp/certs/''] = ''/tmp/certs/cert.pem''
   \<and> keyPath [''ORCHESTRATOR_TLS_CERT_DIR'' \<mapsto> ''/tmp/certs/''] = ''/tmp/certs/key.pem''"
proof -
  have d: "tlsCertDir Map.empty = ''/etc/cuttlefish-common/host_orchestrator/cert''"
    by (simp add: tlsCertDir_def fromEnvOrDefault_def DefaultTLSCertDir_def)
  have e: "tlsCertDir [''ORCHESTRATOR_TLS_CERT_DIR'' \<mapsto> ''/tmp/certs/''] = ''/tmp/certs/''"
    by (simp add: tlsCertDir_def fromEnvOrDefault_def)
  have j1: "filepath_Join [''/etc/cuttlefish-common/host_orchestrator/cert'', ''cert.pem'']
            = ''/etc/cuttlefish-common/host_orchestrator/cert/cert.pem''"
    by code_simp
  have j2: "filepath_Join [''/etc/cuttlefish-common/host_orchestrator/cert'', ''key.pem'']
            = ''/etc/cuttlefish-common/host_orchestrator/cert/key.pem''"
    by code_simp
  have j3: "filepath_Join [''/tmp/certs/'', ''cert.pem''] = ''/tmp/certs/cert.pem''"
    by code_simp
  have j4: "filepath_Join [''/tmp/certs/'', ''key.pem''] = ''/tmp/certs/key.pem''"
    by code_simp
  show ?thesis
    unfolding certPath_def keyPath_def d e j1 j2 j3 j4 by simp
qed

text \<open>
  C6. From the resolved artifact root \<open>R\<close>, \<open>main\<close> derives the tools directory as \<open>R\<close>
  itself, the artifacts directory as \<open>R\<close> joined with \<open>artifacts\<close> and the runtimes
  directory as \<open>R\<close> joined with \<open>runtimes\<close>. The user-artifacts directory is \<open>R\<close>
  joined with \<open>user_artifacs\<close>, the source's spelling: with the default root it is
  \<open>/var/lib/cuttlefish-common/user_artifacs\<close>, which differs from the root joined with
  \<open>user_artifacts\<close>.
\<close>

theorem artifact_paths:
  "RootDir (imPaths env) = imRootDir env
   \<and> CVDToolsDir (imPaths env) = imRootDir env
   \<and> ArtifactsRootDir (imPaths env) = filepath_Join [imRootDir env, ''artifacts'']
   \<and> RuntimesRootDir (imPaths env) = filepath_Join [imRootDir env, ''runtimes'']
   \<and> UAM_RootDir (uamOpts env) = filepath_Join [imRootDir env, ''user_artifacs'']
   \<and> UAM_RootDir (uamOpts Map.empty) = ''/var/lib/cuttlefish-common/user_artifacs''
   \<and> filepath_Join [imRootDir Map.empty, ''user_artifacts'']
       = ''/var/lib/cuttlefish-common/user_artifacts''
   \<and> UAM_RootDir (uamOpts Map.empty) \<noteq> filepath_Join [imRootDir Map.empty, ''user_artifacts'']"
proof -
  have r: "imRootDir Map.empty = ''/var/lib/cuttlefish-common''"
    by (simp add: imRootDir_def fromEnvOrDefault_def defaultCVDArtifactsDir_def)
  have j1: "filepath_Join [''/var/lib/cuttlefish-common'', ''user_artifacs'']
            = ''/var/lib/cuttlefish-common/user_artifacs''"
    by code_simp
  have j2: "filepath_Join [''/var/lib/cuttlefish-common'', ''user_artifacts'']
            = ''/var/lib/cuttlefish-common/user_artifacts''"
    by code_simp
  show ?thesis
    unfolding imPaths_def uamOpts_def r j1 j2 by simp
qed

subsection \<open>Running main\<close>

lemma subsystems_eval:
  "(subsystems env :: 'u object list \<times> ref \<times> ref) =
     ([NewDevicePool, NewPolledSet, NewMapOM,
       NewUserArtifactsManagerImpl (uamOpts env),
       NewVariablesManager (debugStaticVars env),
       CreateHttpHandlers
         \<lparr>router_pool = 0, router_polledSet = 1,
          controller_routes = Some 6, catch_all = None\<rparr>,
       Controller_value
         \<lparr>Controller_Config =
            \<lparr>Paths = imPaths env, CVDToolsVersion = cvdToolsVersion env,
             AndroidBuildServiceURL = abURL env, CVDUser = cvdUser env\<rparr>,
          OperationManager = 2, WaitOperationDuration = 2 * Minute,
          UserArtifactsManager = 3, DebugVariablesManager = 4\<rparr>],
      5, 6)"
  by (simp add: subsystems_def alloc_def AddRoutes_def update_router_def eval_nat_numeral)

lemma main_eval:
  "(main tc Parse env :: panic + 'u world \<times> starter list) =
     (case catchAll tc Parse env of
        Inl p \<Rightarrow> Inl p
      | Inr handler \<Rightarrow>
          Inr (\<lparr>heap =
                  [NewDevicePool, NewPolledSet, NewMapOM,
                   NewUserArtifactsManagerImpl (uamOpts env),
                   NewVariablesManager (debugStaticVars env),
                   CreateHttpHandlers
                     \<lparr>router_pool = 0, router_polledSet = 1,
                      controller_routes = Some 6, catch_all = Some 7\<rparr>,
                   Controller_value
                     \<lparr>Controller_Config =
                        \<lparr>Paths = imPaths env, CVDToolsVersion = cvdToolsVersion env,
                         AndroidBuildServiceURL = abURL env, CVDUser = cvdUser env\<rparr>,
                      OperationManager = 2, WaitOperationDuration = 2 * Minute,
                      UserArtifactsManager = 3, DebugVariablesManager = 4\<rparr>,
                   Handler_value handler],
                 DefaultServeMux = Some 5\<rparr>,
               starters env))"
  unfolding main_def subsystems_eval
  by (simp add: alloc_def PathPrefix_Handler_def update_router_def eval_nat_numeral split: sum.splits)

lemma main_catch_all:
  "catchAll tc Parse env = Inr handler
   \<Longrightarrow> \<exists>wd. main tc Parse env = Inr (wd, starters env) \<and> catch_all_of wd = Some handler"
  by (simp add: main_eval catch_all_of_def eval_nat_numeral)

lemma main_panic:
  "catchAll tc Parse env = Inl p \<Longrightarrow> main tc Parse env = Inl p"
  by (simp add: main_eval)

lemma two_minutes: "sint (2 * Minute) = 120000000000"
  by (simp add: Minute_def Second_def Millisecond_def Microsecond_def Nanosecond_def)

lemma parse_http_ui_internal: "url_Parse Inr ''http://ui.internal'' = Inr ''http://ui.internal''"
  by (simp add: url_Parse_def stringContainsCTLByte_def getScheme_def is_letter_def is_digit_def)

lemma parse_no_scheme_ui_internal:
  "url_Parse Inr ''://ui.internal''
     = Inl (url_Error ''parse'' ''://ui.internal'' ''missing protocol scheme'')"
  by (simp add: url_Parse_def stringContainsCTLByte_def getScheme_def is_letter_def is_digit_def)

lemma parse_port_only:
  "url_Parse Inr '':8080'' = Inl (url_Error ''parse'' '':8080'' ''missing protocol scheme'')"
  by (simp add: url_Parse_def stringContainsCTLByte_def getScheme_def is_letter_def is_digit_def)

lemma webUIUrlStr_set: "webUIUrlStr [''ORCHESTRATOR_WEBUI_URL'' \<mapsto> v] = v"
  by (simp add: webUIUrlStr_def fromEnvOrDefault_def)

lemma webUIUrlStr_unset: "webUIUrlStr Map.empty = []"
  by (simp add: webUIUrlStr_def fromEnvOrDefault_def DefaultWebUIUrl_def)

subsection \<open>Subsystem construction\<close>

text \<open>
  C8. Running lines 109 to 155 of \<open>main\<close> leaves seven objects on the heap, in the
  order of their construction: the device pool, the polled set, the operation manager,
  the user-artifact manager, the debug-variable registry, the router and, last, the
  controller. The controller holds the addresses of the operation manager, the
  user-artifact manager and the debug-variable registry, each below its own address,
  that is, of objects built before it. Its \<open>WaitOperationDuration\<close> is
  \<open>2 * time.Minute\<close>, 120 000 000 000 nanoseconds, whatever the environment. What
  \<open>main\<close> builds after the controller is no subsystem: the catch-all handler, the one
  object it adds when it gets to \<open>start\<close>.
\<close>

theorem controller_built_last:
  "(subsystems env :: 'u object list \<times> ref \<times> ref) =
     ([NewDevicePool, NewPolledSet, NewMapOM,
       NewUserArtifactsManagerImpl (uamOpts env),
       NewVariablesManager (debugStaticVars env),
       CreateHttpHandlers
         \<lparr>router_pool = 0, router_polledSet = 1,
          controller_routes = Some 6, catch_all = None\<rparr>,
       Controller_value
         \<lparr>Controller_Config =
            \<lparr>Paths = imPaths env, CVDToolsVersion = cvdToolsVersion env,
             AndroidBuildServiceURL = abURL env, CVDUser = cvdUser env\<rparr>,
          OperationManager = 2, WaitOperationDuration = 2 * Minute,
          UserArtifactsManager = 3, DebugVariablesManager = 4\<rparr>],
      5, 6)
   \<and> (case (subsystems env :: 'u object list \<times> ref \<times> ref) of
        (h, r, c) \<Rightarrow>
          Suc c = length h
        \<and> (case h ! c of
             Controller_value ctrl \<Rightarrow>
               OperationManager ctrl < c \<and> h ! OperationManager ctrl = NewMapOM
             \<and> UserArtifactsManager ctrl < c
             \<and> h ! UserArtifactsManager ctrl = NewUserArtifactsManagerImpl (uamOpts env)
             \<and> DebugVariablesManager ctrl < c
             \<and> h ! DebugVariablesManager ctrl = NewVariablesManager (debugStaticVars env)
             \<and> WaitOperationDuration ctrl = 2 * Minute
             \<and> sint (WaitOperationDuration ctrl) = 120000000000
           | _ \<Rightarrow> False))
   \<and> (main tc Parse env :: panic + 'u world \<times> starter list) =
       (case catchAll tc Parse env of
          Inl p \<Rightarrow> Inl p
        | Inr handler \<Rightarrow>
            Inr (\<lparr>heap =
                    [NewDevicePool, NewPolledSet, NewMapOM,
                     NewUserArtifactsManagerImpl (uamOpts env),
                     NewVariablesManager (debugStaticVars env),
                     CreateHttpHandlers
                       \<lparr>router_pool = 0, router_polledSet = 1,
                        controller_routes = Some 6, catch_all = Some 7\<rparr>,
                     Controller_value
                       \<lparr>Controller_Config =
                          \<lparr>Paths = imPaths env, CVDToolsVersion = cvdToolsVersion env,
                           AndroidBuildServiceURL = abURL env, CVDUser = cvdUser env\<rparr>,
                        OperationManager = 2, WaitOperationDuration = 2 * Minute,
                        UserArtifactsManager = 3, DebugVariablesManager = 4\<rparr>,
                     Handler_value handler],
                   DefaultServeMux = Some 5\<rparr>,
                 starters env))"
proof (intro conjI)
  show "(case (subsystems env :: 'u object list \<times> ref \<times> ref) of
        (h, r, c) \<Rightarrow>
          Suc c = length h
        \<and> (case h ! c of
             Controller_value ctrl \<Rightarrow>
               OperationManager ctrl < c \<and> h ! OperationManager ctrl = NewMapOM
             \<and> UserArtifactsManager ctrl < c
             \<and> h ! UserArtifactsManager ctrl = NewUserArtifactsManagerImpl (uamOpts env)
             \<and> DebugVariablesManager ctrl < c
             \<and> h ! DebugVariablesManager ctrl = NewVariablesManager (debugStaticVars env)
             \<and> WaitOperationDuration ctrl = 2 * Minute
             \<and> sint (WaitOperationDuration ctrl) = 120000000000
           | _ \<Rightarrow> False))"
    unfolding subsystems_eval by (simp add: two_minutes eval_nat_numeral)
qed (rule subsystems_eval main_eval)+

subsection \<open>The catch-all handler\<close>

text \<open>
  C5, as amended. The catch-all handler is fixed when \<open>main\<close> composes the router, by
  the resolved web-UI URL: for the empty URL (the default) it is the file server rooted
  at \<open>static\<close>; for a non-empty URL that \<open>url.Parse\<close> accepts it is the single-host
  reverse proxy whose target is the URL that \<open>url.Parse\<close> returns for it. The handler
  so determined is the one registered on the router that \<open>start\<close> serves.
\<close>

theorem catchAll_selection:
  "(webUIUrlStr env = [] \<longrightarrow> catchAll tc Parse env = Inr (FileServer ''static''))
   \<and> (\<forall>u. webUIUrlStr env \<noteq> [] \<and> Parse (webUIUrlStr env) = Inr u
          \<longrightarrow> catchAll tc Parse env = Inr (ReverseProxy (Some u)))
   \<and> (\<forall>handler. catchAll tc Parse env = Inr handler
          \<longrightarrow> (\<exists>wd. main tc Parse env = Inr (wd, starters env)
                    \<and> catch_all_of wd = Some handler))"
proof (intro conjI allI impI)
  show "catchAll tc Parse env = Inr (FileServer ''static'')" if "webUIUrlStr env = []"
    using that by (simp add: catchAll_def DefaultStaticFilesDir_def)
  show "catchAll tc Parse env = Inr (ReverseProxy (Some u))"
    if "webUIUrlStr env \<noteq> [] \<and> Parse (webUIUrlStr env) = Inr u" for u
    using that by (cases tc) (simp_all add: catchAll_def NewSingleHostReverseProxy_def)
  show "\<exists>wd. main tc Parse env = Inr (wd, starters env) \<and> catch_all_of wd = Some handler"
    if "catchAll tc Parse env = Inr handler" for handler
    using that by (rule main_catch_all)
qed

theorem catchAll_selection_witness:
  "webUIUrlStr Map.empty = []
   \<and> catchAll Go_1_20_or_later (url_Parse Inr) Map.empty = Inr (FileServer ''static'')
   \<and> webUIUrlStr [''ORCHESTRATOR_WEBUI_URL'' \<mapsto> ''http://ui.internal''] \<noteq> []
   \<and> url_Parse Inr (webUIUrlStr [''ORCHESTRATOR_WEBUI_URL'' \<mapsto> ''http://ui.internal''])
       = Inr ''http://ui.internal''
   \<and> catchAll Go_before_1_20 (url_Parse Inr)
        [''ORCHESTRATOR_WEBUI_URL'' \<mapsto> ''http://ui.internal'']
       = Inr (ReverseProxy (Some ''http://ui.internal''))
   \<and> (\<exists>wd. main Go_before_1_20 (url_Parse Inr)
               [''ORCHESTRATOR_WEBUI_URL'' \<mapsto> ''http://ui.internal'']
             = Inr (wd, starters [''ORCHESTRATOR_WEBUI_URL'' \<mapsto> ''http://ui.internal''])
           \<and> catch_all_of wd = Some (ReverseProxy (Some ''http://ui.internal'')))"
proof -
  let ?env = "[''ORCHESTRATOR_WEBUI_URL'' \<mapsto> ''http://ui.internal'']"
  let ?Parse = "url_Parse Inr :: string \<Rightarrow> url_Error + string"
  have e: "webUIUrlStr Map.empty = []"
    by (rule webUIUrlStr_unset)
  have s: "catchAll Go_1_20_or_later ?Parse Map.empty = Inr (FileServer ''static'')"
    by (rule catchAll_selection [where Parse = ?Parse and env = Map.empty,
          THEN conjunct1, rule_format, OF e])
  have ne: "webUIUrlStr ?env \<noteq> []"
    by (simp add: webUIUrlStr_set)
  have ok: "?Parse (webUIUrlStr ?env) = Inr ''http://ui.internal''"
    by (simp add: webUIUrlStr_set parse_http_ui_internal)
  have p: "catchAll Go_before_1_20 ?Parse ?env = Inr (ReverseProxy (Some ''http://ui.internal''))"
    by (rule catchAll_selection [where Parse = ?Parse and env = ?env,
          THEN conjunct2, THEN conjunct1, rule_format, OF conjI [OF ne ok]])
  have m: "\<exists>wd. main Go_before_1_20 ?Parse ?env = Inr (wd, starters ?env)
             \<and> catch_all_of wd = Some (ReverseProxy (Some ''http://ui.internal''))"
    by (rule catchAll_selection [where Parse = ?Parse and env = ?env,
          THEN conjunct2, THEN conjunct2, rule_format, OF p])
  from e s ne ok p m show ?thesis
    by (intro conjI)
qed

text \<open>
  C5 as first stated, with a proxy to the URL for every non-empty URL, fails for
  \<open>ORCHESTRATOR_WEBUI_URL=://ui.internal\<close>: \<open>url.Parse\<close> rejects the string (no scheme
  before the colon), and what \<open>main\<close> builds is a proxy with a \<open>nil\<close> target from
  Go 1.20 on, and nothing but a panic before.
\<close>

theorem catchAll_unparsable_counterexample:
  "webUIUrlStr [''ORCHESTRATOR_WEBUI_URL'' \<mapsto> ''://ui.internal''] = ''://ui.internal''
   \<and> url_Parse Inr ''://ui.internal''
       = Inl (url_Error ''parse'' ''://ui.internal'' ''missing protocol scheme'')
   \<and> catchAll Go_1_20_or_later (url_Parse Inr)
        [''ORCHESTRATOR_WEBUI_URL'' \<mapsto> ''://ui.internal'']
       = (Inr (ReverseProxy None) :: panic + string Handler)
   \<and> catchAll Go_before_1_20 (url_Parse Inr)
        [''ORCHESTRATOR_WEBUI_URL'' \<mapsto> ''://ui.internal'']
       = (Inl nil_pointer_dereference :: panic + string Handler)"
  by (simp add: webUIUrlStr_set parse_no_scheme_ui_internal catchAll_def
      NewSingleHostReverseProxy_def)

text \<open>
  C9, as amended. For a non-empty web-UI URL \<open>main\<close> takes the proxy branch whatever
  \<open>url.Parse\<close> returns, and never installs the file server. When parsing fails the
  error is dropped and the proxy constructor is called on the \<open>nil\<close> URL: built with
  Go 1.20 or later, \<open>main\<close> installs a proxy with a \<open>nil\<close> target and goes on to
  \<open>start\<close>; built with an earlier Go, the constructor panics and \<open>main\<close> ends there.
\<close>

theorem unparsable_webui_url_selects_proxy:
  assumes "webUIUrlStr env \<noteq> []"
  shows "(\<forall>dir. catchAll tc Parse env \<noteq> Inr (FileServer dir))
       \<and> (\<forall>err. Parse (webUIUrlStr env) = Inl err \<longrightarrow>
              catchAll Go_1_20_or_later Parse env = Inr (ReverseProxy None)
            \<and> (\<exists>wd. main Go_1_20_or_later Parse env = Inr (wd, starters env)
                      \<and> catch_all_of wd = Some (ReverseProxy None))
            \<and> catchAll Go_before_1_20 Parse env = Inl nil_pointer_dereference
            \<and> main Go_before_1_20 Parse env = Inl nil_pointer_dereference)"
proof (intro conjI allI impI)
  show "catchAll tc Parse env \<noteq> Inr (FileServer dir)" for dir
    using assms
    by (cases tc; cases "Parse (webUIUrlStr env)")
       (simp_all add: catchAll_def NewSingleHostReverseProxy_def)
next
  fix err assume f: "Parse (webUIUrlStr env) = Inl err"
  show new: "catchAll Go_1_20_or_later Parse env = Inr (ReverseProxy None)"
    using assms f by (simp add: catchAll_def NewSingleHostReverseProxy_def)
  show "\<exists>wd. main Go_1_20_or_later Parse env = Inr (wd, starters env)
             \<and> catch_all_of wd = Some (ReverseProxy None)"
    by (rule main_catch_all [OF new])
  show old: "catchAll Go_before_1_20 Parse env = Inl nil_pointer_dereference"
    using assms f by (simp add: catchAll_def NewSingleHostReverseProxy_def)
  show "main Go_before_1_20 Parse env = Inl nil_pointer_dereference"
    by (rule main_panic [OF old])
qed

theorem unparsable_webui_url_selects_proxy_witness:
  "webUIUrlStr [''ORCHESTRATOR_WEBUI_URL'' \<mapsto> ''://ui.internal''] \<noteq> []
   \<and> url_Parse Inr (webUIUrlStr [''ORCHESTRATOR_WEBUI_URL'' \<mapsto> ''://ui.internal''])
       = Inl (url_Error ''parse'' ''://ui.internal'' ''missing protocol scheme'')
   \<and> catchAll Go_1_20_or_later (url_Parse Inr)
        [''ORCHESTRATOR_WEBUI_URL'' \<mapsto> ''://ui.internal'']
       = (Inr (ReverseProxy None) :: panic + string Handler)"
proof -
  let ?env = "[''ORCHESTRATOR_WEBUI_URL'' \<mapsto> ''://ui.internal'']"
  let ?Parse = "url_Parse Inr :: string \<Rightarrow> url_Error + string"
  have ne: "webUIUrlStr ?env \<noteq> []"
    by (simp add: webUIUrlStr_set)
  have fails: "?Parse (webUIUrlStr ?env)
               = Inl (url_Error ''parse'' ''://ui.internal'' ''missing protocol scheme'')"
    by (simp add: webUIUrlStr_set parse_no_scheme_ui_internal)
  have "catchAll Go_1_20_or_later ?Parse ?env = Inr (ReverseProxy None)"
    by (rule unparsable_webui_url_selects_proxy [where Parse = ?Parse, OF ne,
          THEN conjunct2, rule_format, OF fails, THEN conjunct1])
  with ne fails show ?thesis
    by (intro conjI)
qed

text \<open>
  C9 as first stated, with startup never aborted, fails for
  \<open>ORCHESTRATOR_WEBUI_URL=:8080\<close> on a toolchain before Go 1.20: \<open>main\<close> ends with
  the panic of the proxy constructor.
\<close>

theorem startup_aborts_counterexample:
  "webUIUrlStr [''ORCHESTRATOR_WEBUI_URL'' \<mapsto> '':8080''] = '':8080''
   \<and> url_Parse Inr '':8080'' = Inl (url_Error ''parse'' '':8080'' ''missing protocol scheme'')
   \<and> main Go_before_1_20 (url_Parse Inr) [''ORCHESTRATOR_WEBUI_URL'' \<mapsto> '':8080'']
       = (Inl nil_pointer_dereference :: panic + string world \<times> starter list)"
  by (simp add: webUIUrlStr_set parse_port_only main_eval catchAll_def
      NewSingleHostReverseProxy_def)

subsection \<open>The listeners handed to the supervisor\<close>

text \<open>
  C4. The list of starters handed to \<open>start\<close> is the control-socket starter followed by
  the HTTP starter, followed by the HTTPS starter exactly when the resolved HTTPS port is
  not empty. With only \<open>ORCHESTRATOR_HTTP_PORT=9000\<close> in the environment the list is
  the control socket on the default path and the HTTP listener on port 9000.
\<close>

theorem starters_composition:
  "starters env =
     (if httpsPort env = []
      then [SetupDeviceEndpoint (socketPath env), startHttpServer (httpPort env)]
      else [SetupDeviceEndpoint (socketPath env), startHttpServer (httpPort env),
            startHttpsServer (httpsPort env) (certPath env) (keyPath env)])
   \<and> ((\<exists>port cert key. startHttpsServer port cert key \<in> set (starters env))
        \<longleftrightarrow> httpsPort env \<noteq> [])
   \<and> starters [''ORCHESTRATOR_HTTP_PORT'' \<mapsto> ''9000''] =
       [SetupDeviceEndpoint ''/run/cuttlefish/operator'', startHttpServer ''9000'']"
proof (intro conjI)
  show "starters [''ORCHESTRATOR_HTTP_PORT'' \<mapsto> ''9000''] =
       [SetupDeviceEndpoint ''/run/cuttlefish/operator'', startHttpServer ''9000'']"
    by (simp add: starters_def resolved_defs fromEnvOrDefault_def constant_defs)
qed (auto simp: starters_def)

subsection \<open>The listener supervisor\<close>

lemma finite_unfinished: "finite (unfinished gs)"
  by (simp add: unfinished_def)

lemma unfinished_update_other:
  "k < length gs \<Longrightarrow> gs ! k \<noteq> Finished \<Longrightarrow> g \<noteq> Finished
   \<Longrightarrow> unfinished (gs[k := g]) = unfinished gs"
  by (auto simp: unfinished_def nth_list_update)

lemma unfinished_update_Finished:
  "k < length gs \<Longrightarrow> unfinished (gs[k := Finished]) = unfinished gs - {k}"
  by (auto simp: unfinished_def nth_list_update)

lemma card_unfinished_Finished:
  assumes "k < length gs" "gs ! k \<noteq> Finished"
  shows "int (card (unfinished (gs[k := Finished]))) = int (card (unfinished gs)) - 1"
proof -
  have k: "k \<in> unfinished gs"
    using assms by (simp add: unfinished_def)
  have "card (unfinished gs - {k}) = card (unfinished gs) - 1"
    using k by (simp add: finite_unfinished)
  moreover have "card (unfinished gs) > 0"
    using k finite_unfinished [of gs] by (auto simp: card_gt_0_iff)
  ultimately show ?thesis
    using assms(1) by (simp add: unfinished_update_Finished)
qed

lemma unfinished_replicate: "card (unfinished (replicate n Unspawned)) = n"
proof -
  have "unfinished (replicate n Unspawned) = {..<n}"
    by (auto simp: unfinished_def)
  then show ?thesis
    by simp
qed

lemma unfinished_empty:
  "unfinished gs = {} \<Longrightarrow> k < length gs \<Longrightarrow> gs ! k = Finished"
  by (auto simp: unfinished_def)

lemma inv_init: "inv fs (init fs)"
  by (simp add: inv_def init_def unfinished_replicate goroutine_ok_def)

lemma invI:
  assumes "length (goroutines s) = length fs" "length (calls s) = length fs"
    "counter s = int (card (unfinished (goroutines s)))"
    "\<And>k. k < length fs \<Longrightarrow> goroutine_ok fs s k"
    "\<And>i k. pc s = Loop i \<Longrightarrow> i \<le> k \<Longrightarrow> k < length fs \<Longrightarrow> goroutines s ! k = Unspawned"
    "exit_status s = None \<or> exit_status s = Some 0 \<or> exit_status s = Some 1"
    "exit_status s = Some 0 \<Longrightarrow> unfinished (goroutines s) = {}"
    "pc s = Done \<Longrightarrow> exit_status s = Some 0"
  shows "inv fs s"
  unfolding inv_def using assms by blast

lemma inv_len: "inv fs s \<Longrightarrow> length (goroutines s) = length fs"
  unfolding inv_def by blast

lemma inv_len_calls: "inv fs s \<Longrightarrow> length (calls s) = length fs"
  unfolding inv_def by blast

lemma inv_counter: "inv fs s \<Longrightarrow> counter s = int (card (unfinished (goroutines s)))"
  unfolding inv_def by blast

lemma inv_ok: "inv fs s \<Longrightarrow> k < length fs \<Longrightarrow> goroutine_ok fs s k"
  unfolding inv_def by blast

lemma inv_loop:
  "inv fs s \<Longrightarrow> pc s = Loop i \<Longrightarrow> i \<le> k \<Longrightarrow> k < length fs
   \<Longrightarrow> goroutines s ! k = Unspawned"
  unfolding inv_def by blast

lemma inv_exit:
  "inv fs s \<Longrightarrow> exit_status s = None \<or> exit_status s = Some 0 \<or> exit_status s = Some 1"
  unfolding inv_def by blast

lemma inv_exit0: "inv fs s \<Longrightarrow> exit_status s = Some 0 \<Longrightarrow> unfinished (goroutines s) = {}"
  unfolding inv_def by blast

lemma inv_done: "inv fs s \<Longrightarrow> pc s = Done \<Longrightarrow> exit_status s = Some 0"
  unfolding inv_def by blast

text \<open>A goroutine that a step leaves alone stays well-formed.\<close>

lemma goroutine_ok_same:
  assumes "goroutine_ok fs s k" "goroutines s' ! k = goroutines s ! k" "calls s' ! k = calls s ! k"
    "goroutines s ! k = Unspawned \<Longrightarrow> \<exists>i. pc s' = Loop i \<and> i \<le> k"
  shows "goroutine_ok fs s' k"
  using assms unfolding goroutine_ok_def by (cases "goroutines s ! k") simp_all

lemma inv_main_step:
  assumes i: "inv fs s" and st: "main_step fs s = Some s'" and ex: "exit_status s = None"
  shows "inv fs s'"
proof (cases "pc s")
  case (Loop i)
  show ?thesis
  proof (cases "i < length fs")
    case True
    with Loop st have s': "s' = s\<lparr>goroutines := (goroutines s)[i := Spawned], pc := Loop (Suc i)\<rparr>"
      by (simp add: main_step_def)
    have u: "goroutines s ! i = Unspawned"
      using inv_loop [OF i Loop _ True] by simp
    have len: "length (goroutines s) = length fs"
      by (rule inv_len [OF i])
    have un: "unfinished ((goroutines s)[i := Spawned]) = unfinished (goroutines s)"
      using True u len by (simp add: unfinished_update_other)
    show ?thesis
    proof (rule invI)
      fix k assume k: "k < length fs"
      show "goroutine_ok fs s' k"
      proof (cases "k = i")
        case True
        have "calls s ! i = 0"
          using inv_ok [OF i k] u True by (simp add: goroutine_ok_def)
        then show ?thesis
          using True k len by (simp add: goroutine_ok_def s')
      next
        case False
        have "goroutines s ! k = Unspawned \<Longrightarrow> \<exists>j. pc s' = Loop j \<and> j \<le> k"
          using inv_ok [OF i k] Loop False by (auto simp: goroutine_ok_def s')
        with inv_ok [OF i k] False show ?thesis
          by - (rule goroutine_ok_same [where s = s], simp_all add: s')
      qed
    next
      fix j k assume "pc s' = Loop j" "j \<le> k" "k < length fs"
      then show "goroutines s' ! k = Unspawned"
        using inv_loop [OF i Loop, of k] by (simp add: s')
    qed (use i ex un in \<open>simp_all add: s' inv_len inv_len_calls inv_counter\<close>)
  next
    case False
    with Loop st have s': "s' = s\<lparr>pc := Waiting\<rparr>"
      by (simp add: main_step_def)
    show ?thesis
    proof (rule invI)
      fix k assume k: "k < length fs"
      have "goroutines s ! k \<noteq> Unspawned"
        using inv_ok [OF i k] Loop False k by (auto simp: goroutine_ok_def)
      with inv_ok [OF i k] show "goroutine_ok fs s' k"
        by - (rule goroutine_ok_same [where s = s], simp_all add: s')
    qed (use i ex in \<open>simp_all add: s' inv_len inv_len_calls inv_counter\<close>)
  qed
next
  case Waiting
  with st have c: "counter s = 0" and s': "s' = s\<lparr>pc := Done, exit_status := Some 0\<rparr>"
    by (auto simp: main_step_def split: if_splits)
  have e: "unfinished (goroutines s) = {}"
    using c inv_counter [OF i] by (simp add: finite_unfinished)
  show ?thesis
  proof (rule invI)
    fix k assume k: "k < length fs"
    have "goroutines s ! k \<noteq> Unspawned"
      using inv_ok [OF i k] Waiting by (auto simp: goroutine_ok_def)
    with inv_ok [OF i k] show "goroutine_ok fs s' k"
      by - (rule goroutine_ok_same [where s = s], simp_all add: s')
  qed (use i e in \<open>simp_all add: s' inv_len inv_len_calls inv_counter\<close>)
next
  case Done
  with st show ?thesis
    by (simp add: main_step_def)
qed

lemma inv_go_step:
  assumes i: "inv fs s" and st: "go_step fs k s = Some s'" and ex: "exit_status s = None"
    and k: "k < length fs"
  shows "inv fs s'"
proof -
  have len: "length (goroutines s) = length fs" and lenc: "length (calls s) = length fs"
    using i by (simp_all add: inv_len inv_len_calls)
  have okk: "goroutine_ok fs s k"
    by (rule inv_ok [OF i k])
  have other: "goroutine_ok fs s' j"
    if "j < length fs" "j \<noteq> k" "goroutines s' ! j = goroutines s ! j"
       "calls s' ! j = calls s ! j" "pc s' = pc s" for j
    using inv_ok [OF i that(1)] that by - (rule goroutine_ok_same [where s = s], auto simp: goroutine_ok_def)
  show ?thesis
  proof (cases "goroutines s ! k")
    case Unspawned
    with st show ?thesis by (simp add: go_step_def)
  next
    case Finished
    with st show ?thesis by (simp add: go_step_def)
  next
    case Spawned
    with st have s': "s' = s\<lparr>goroutines := (goroutines s)[k := Calling],
                            calls := (calls s)[k := Suc (calls s ! k)]\<rparr>"
      by (simp add: go_step_def)
    have un: "unfinished ((goroutines s)[k := Calling]) = unfinished (goroutines s)"
      using k Spawned len by (simp add: unfinished_update_other)
    show ?thesis
    proof (rule invI)
      fix j assume j: "j < length fs"
      show "goroutine_ok fs s' j"
      proof (cases "j = k")
        case True
        then show ?thesis
          using okk Spawned k len lenc by (simp add: goroutine_ok_def s')
      next
        case False
        then show ?thesis
          by - (rule other [OF j], simp_all add: s')
      qed
    next
      fix l j assume "pc s' = Loop l" "l \<le> j" "j < length fs"
      then have "goroutines s ! j = Unspawned"
        using inv_loop [OF i, of l j] by (simp add: s')
      with Spawned show "goroutines s' ! j = Unspawned"
        by (cases "j = k") (simp_all add: s')
    qed (use i ex un in \<open>simp_all add: s' inv_len inv_len_calls inv_counter inv_done\<close>)
  next
    case Calling
    with st obtain r where r: "fs ! k = Returns r"
      and s': "s' = s\<lparr>goroutines := (goroutines s)[k := Returned r]\<rparr>"
      by (auto simp: go_step_def split: outcome.splits)
    have un: "unfinished ((goroutines s)[k := Returned r]) = unfinished (goroutines s)"
      using k Calling len by (simp add: unfinished_update_other)
    show ?thesis
    proof (rule invI)
      fix j assume j: "j < length fs"
      show "goroutine_ok fs s' j"
      proof (cases "j = k")
        case True
        then show ?thesis
          using okk Calling k len r by (simp add: goroutine_ok_def s')
      next
        case False
        then show ?thesis
          by - (rule other [OF j], simp_all add: s')
      qed
    next
      fix l j assume "pc s' = Loop l" "l \<le> j" "j < length fs"
      then have "goroutines s ! j = Unspawned"
        using inv_loop [OF i, of l j] by (simp add: s')
      with Calling show "goroutines s' ! j = Unspawned"
        by (cases "j = k") (simp_all add: s')
    qed (use i ex un in \<open>simp_all add: s' inv_len inv_len_calls inv_counter inv_done\<close>)
  next
    case (Returned r)
    show ?thesis
    proof (cases r)
      case (Some e)
      with Returned st have s': "s' = s\<lparr>exit_status := Some 1\<rparr>"
        by (simp add: go_step_def)
      show ?thesis
      proof (rule invI)
        fix j assume j: "j < length fs"
        show "goroutine_ok fs s' j"
          using inv_ok [OF i j]
          by - (rule goroutine_ok_same [where s = s], auto simp: goroutine_ok_def s')
      next
        fix l j assume "pc s' = Loop l" "l \<le> j" "j < length fs"
        then show "goroutines s' ! j = Unspawned"
          using inv_loop [OF i, of l j] by (simp add: s')
      next
        assume "pc s' = Done"
        then show "exit_status s' = Some 0"
          using inv_done [OF i] ex by (simp add: s')
      qed (use i in \<open>simp_all add: s' inv_len inv_len_calls inv_counter\<close>)
    next
      case None
      with Returned st have s': "s' = s\<lparr>counter := counter s - 1,
                                        goroutines := (goroutines s)[k := Finished]\<rparr>"
        by (simp add: go_step_def)
      have cnt: "int (card (unfinished ((goroutines s)[k := Finished])))
                 = int (card (unfinished (goroutines s))) - 1"
        using k Returned len by (simp add: card_unfinished_Finished)
      show ?thesis
      proof (rule invI)
        fix j assume j: "j < length fs"
        show "goroutine_ok fs s' j"
        proof (cases "j = k")
          case True
          then show ?thesis
            using okk Returned None k len by (simp add: goroutine_ok_def s')
        next
          case False
          then show ?thesis
            by - (rule other [OF j], simp_all add: s')
        qed
      next
        fix l j assume "pc s' = Loop l" "l \<le> j" "j < length fs"
        then have "goroutines s ! j = Unspawned"
          using inv_loop [OF i, of l j] by (simp add: s')
        with Returned show "goroutines s' ! j = Unspawned"
          by (cases "j = k") (simp_all add: s')
      qed (use i ex cnt in \<open>simp_all add: s' inv_len inv_len_calls inv_counter inv_done\<close>)
    qed
  qed
qed

lemma inv_step: "inv fs s \<Longrightarrow> step fs a s = Some s' \<Longrightarrow> inv fs s'"
  by (cases a) (auto simp: step_def split: if_splits intro: inv_main_step inv_go_step)

lemma inv_run: "inv fs s \<Longrightarrow> run fs sched s = Some s' \<Longrightarrow> inv fs s'"
  by (induction sched arbitrary: s) (auto split: option.splits intro: inv_step)

lemma inv_start: "start fs sched = Some s \<Longrightarrow> inv fs s"
  unfolding start_def by (rule inv_run [OF inv_init])

lemma step_after_exit: "exit_status s \<noteq> None \<Longrightarrow> step fs a s = None"
  by (simp add: step_def)

lemma run_after_exit: "exit_status s \<noteq> None \<Longrightarrow> run fs sched s = Some s' \<Longrightarrow> sched = [] \<and> s' = s"
  by (cases sched) (simp_all add: step_after_exit)

lemma failed_no_normal_exit:
  assumes "inv fs s" "k < length fs" "goroutines s ! k = Returned (Some err)"
  shows "exit_status s \<noteq> Some 0"
proof
  assume "exit_status s = Some 0"
  then have "unfinished (goroutines s) = {}"
    by (rule inv_exit0 [OF assms(1)])
  then have "goroutines s ! k = Finished"
    using assms(1,2) by (simp add: unfinished_empty inv_len)
  with assms(3) show False
    by simp
qed

lemma failed_next_step:
  assumes "k < length fs" "goroutines s ! k = Returned (Some err)" "exit_status s = None"
  shows "step fs (Go k) s = Some (s\<lparr>exit_status := Some 1\<rparr>)"
  using assms by (simp add: step_def go_step_def)

lemma failed_step:
  assumes "inv fs s" "k < length fs" "goroutines s ! k = Returned (Some err)"
    and st: "step fs a s = Some s'"
  shows "goroutines s' ! k = Returned (Some err) \<and> (a = Go k \<longrightarrow> exit_status s' = Some 1)"
proof (cases a)
  case Main
  have "pc s = Loop i \<Longrightarrow> i < length fs \<Longrightarrow> i \<noteq> k" for i
    using inv_loop [OF assms(1), of i i] assms(3) by auto
  with Main st assms(3) show ?thesis
    by (auto simp: step_def main_step_def split: if_splits pc.splits)
next
  case (Go j)
  show ?thesis
  proof (cases "j = k")
    case True
    with Go st assms(2,3) show ?thesis
      by (auto simp: step_def go_step_def split: if_splits)
  next
    case False
    with Go st assms(3) show ?thesis
      by (auto simp: step_def go_step_def split: if_splits goroutine.splits outcome.splits option.splits)
  qed
qed

lemma failed_run:
  assumes "inv fs s" "k < length fs" "goroutines s ! k = Returned (Some err)"
    "run fs sched s = Some s'"
  shows "goroutines s' ! k = Returned (Some err) \<and> (Go k \<in> set sched \<longrightarrow> exit_status s' = Some 1)"
  using assms
proof (induction sched arbitrary: s)
  case Nil
  then show ?case by simp
next
  case (Cons a sched)
  from Cons.prems(4) obtain s1 where s1: "step fs a s = Some s1" and r: "run fs sched s1 = Some s'"
    by (auto split: option.splits)
  have i1: "inv fs s1"
    by (rule inv_step [OF Cons.prems(1) s1])
  have f1: "goroutines s1 ! k = Returned (Some err)" and e1: "a = Go k \<longrightarrow> exit_status s1 = Some 1"
    using failed_step [OF Cons.prems(1-3) s1] by simp_all
  have ih: "goroutines s' ! k = Returned (Some err)
            \<and> (Go k \<in> set sched \<longrightarrow> exit_status s' = Some 1)"
    by (rule Cons.IH [OF i1 Cons.prems(2) f1 r])
  show ?case
  proof (cases "a = Go k")
    case True
    with e1 have "exit_status s1 \<noteq> None" by simp
    from run_after_exit [OF this r] True e1 ih show ?thesis by simp
  next
    case False
    with ih show ?thesis by simp
  qed
qed

lemma calls_once:
  assumes "inv fs s" "k < length fs"
  shows "calls s ! k \<le> 1"
  using inv_ok [OF assms] by (simp add: goroutine_ok_def split: goroutine.splits)

lemma failed_called_once:
  assumes "inv fs s" "k < length fs" "goroutines s ! k = Returned r"
  shows "calls s ! k = 1 \<and> fs ! k = Returns r"
  using inv_ok [OF assms(1,2)] assms(3) by (simp add: goroutine_ok_def)

lemma stuck_exit:
  assumes i: "inv fs s" and k: "k < length fs" and f: "fs ! k = Returns (Some err)"
    and stuck: "\<forall>a. step fs a s = None"
  shows "exit_status s = Some 1"
proof -
  have ok: "goroutine_ok fs s k"
    by (rule inv_ok [OF i k])
  have nf: "goroutines s ! k \<noteq> Finished"
    using ok f by (auto simp: goroutine_ok_def)
  have ex: "exit_status s \<noteq> None"
  proof
    assume none: "exit_status s = None"
    from stuck have m: "main_step fs s = None" and g: "go_step fs k s = None"
      using none k by (auto simp: step_def dest: spec [where x = Main] spec [where x = "Go k"])
    from m have "\<nexists>i. pc s = Loop i"
      by (auto simp: main_step_def split: if_splits)
    with ok have "goroutines s ! k \<noteq> Unspawned"
      by (auto simp: goroutine_ok_def)
    with g nf f ok show False
      by (cases "goroutines s ! k") (auto simp: go_step_def goroutine_ok_def split: option.splits)
  qed
  have "exit_status s \<noteq> Some 0"
  proof
    assume "exit_status s = Some 0"
    then have "unfinished (goroutines s) = {}"
      by (rule inv_exit0 [OF i])
    then have "goroutines s ! k = Finished"
      using i k by (simp add: unfinished_empty inv_len)
    with nf show False by simp
  qed
  with ex inv_exit [OF i] show ?thesis
    by auto
qed

text \<open>
  C1. Take any list of starters, any schedule and the state \<open>s\<close> it reaches, and any
  starter \<open>k\<close> of the list. Every starter is called at most once. Once the process has
  exited no thread takes a step. If starter \<open>k\<close> has returned an error to its goroutine,
  then: the process has not ended and never ends with status 0 (\<open>wg.Wait\<close> does not
  return, the counter still counts \<open>k\<close>); the goroutine's next step ends the process
  with status 1; in every continuation the goroutine still holds the error and the
  starter has been called once (it is never called again), and a continuation in which
  the goroutine takes a step ends with status 1. Last, when no thread can take a step
  any more and some starter is one that returns an error, the process has exited with
  status 1: it is not left serving on the other listeners.
\<close>

theorem start_fail_fast:
  assumes "start fs sched = Some s" and "k < length fs"
  shows "(exit_status s \<noteq> None \<longrightarrow> (\<forall>a. step fs a s = None))
       \<and> calls s ! k \<le> 1
       \<and> (\<forall>err. goroutines s ! k = Returned (Some err) \<longrightarrow>
            fs ! k = Returns (Some err)
          \<and> exit_status s \<noteq> Some 0
          \<and> (exit_status s = None \<longrightarrow> step fs (Go k) s = Some (s\<lparr>exit_status := Some 1\<rparr>))
          \<and> (\<forall>sched' s'. run fs sched' s = Some s' \<longrightarrow>
                goroutines s' ! k = Returned (Some err)
              \<and> calls s' ! k = 1
              \<and> exit_status s' \<noteq> Some 0
              \<and> (Go k \<in> set sched' \<longrightarrow> exit_status s' = Some 1)))
       \<and> (\<forall>err. fs ! k = Returns (Some err) \<and> (\<forall>a. step fs a s = None)
            \<longrightarrow> exit_status s = Some 1)"
proof -
  have i: "inv fs s"
    by (rule inv_start [OF assms(1)])
  have a: "exit_status s \<noteq> None \<longrightarrow> (\<forall>a. step fs a s = None)"
    by (simp add: step_after_exit)
  have b: "calls s ! k \<le> 1"
    by (rule calls_once [OF i assms(2)])
  have c: "fs ! k = Returns (Some err)
          \<and> exit_status s \<noteq> Some 0
          \<and> (exit_status s = None \<longrightarrow> step fs (Go k) s = Some (s\<lparr>exit_status := Some 1\<rparr>))
          \<and> (\<forall>sched' s'. run fs sched' s = Some s' \<longrightarrow>
                goroutines s' ! k = Returned (Some err)
              \<and> calls s' ! k = 1
              \<and> exit_status s' \<noteq> Some 0
              \<and> (Go k \<in> set sched' \<longrightarrow> exit_status s' = Some 1))"
    if r: "goroutines s ! k = Returned (Some err)" for err
  proof (intro conjI allI impI)
    show "fs ! k = Returns (Some err)"
      using failed_called_once [OF i assms(2) r] by simp
    show "exit_status s \<noteq> Some 0"
      by (rule failed_no_normal_exit [OF i assms(2) r])
    show "step fs (Go k) s = Some (s\<lparr>exit_status := Some 1\<rparr>)" if "exit_status s = None"
      by (rule failed_next_step [OF assms(2) r that])
  next
    fix sched' s' assume run: "run fs sched' s = Some s'"
    have i': "inv fs s'"
      by (rule inv_run [OF i run])
    show r': "goroutines s' ! k = Returned (Some err)"
      using failed_run [OF i assms(2) r run] by simp
    show "calls s' ! k = 1"
      using failed_called_once [OF i' assms(2) r'] by simp
    show "exit_status s' \<noteq> Some 0"
      by (rule failed_no_normal_exit [OF i' assms(2) r'])
    show "exit_status s' = Some 1" if "Go k \<in> set sched'"
      using failed_run [OF i assms(2) r run] that by simp
  qed
  have d: "exit_status s = Some 1" if "fs ! k = Returns (Some err) \<and> (\<forall>a. step fs a s = None)" for err
    using stuck_exit [OF i assms(2)] that by blast
  from a b c d show ?thesis
    by blast
qed

theorem start_fail_fast_witness:
  "start [Blocks, Returns (Some ''bind: address already in use'')] [Main, Main, Main, Go 1, Go 1]
     = Some \<lparr>pc = Waiting, counter = 2,
             goroutines = [Spawned, Returned (Some ''bind: address already in use'')],
             calls = [0, 1], exit_status = None\<rparr>
   \<and> (1::nat) < length [Blocks, Returns (Some ''bind: address already in use'')]
   \<and> step [Blocks, Returns (Some ''bind: address already in use'')] (Go 1)
        \<lparr>pc = Waiting, counter = 2,
         goroutines = [Spawned, Returned (Some ''bind: address already in use'')],
         calls = [0, 1], exit_status = None\<rparr>
     = Some \<lparr>pc = Waiting, counter = 2,
             goroutines = [Spawned, Returned (Some ''bind: address already in use'')],
             calls = [0, 1], exit_status = Some 1\<rparr>
   \<and> run [Blocks, Returns (Some ''bind: address already in use'')] [Go 0, Go 1]
        \<lparr>pc = Waiting, counter = 2,
         goroutines = [Spawned, Returned (Some ''bind: address already in use'')],
         calls = [0, 1], exit_status = None\<rparr>
     = Some \<lparr>pc = Waiting, counter = 2,
             goroutines = [Calling, Returned (Some ''bind: address already in use'')],
             calls = [1, 1], exit_status = Some 1\<rparr>
   \<and> start [Blocks, Returns (Some ''bind: address already in use'')]
        [Main, Main, Main, Go 1, Go 1, Go 0, Go 1]
     = Some \<lparr>pc = Waiting, counter = 2,
             goroutines = [Calling, Returned (Some ''bind: address already in use'')],
             calls = [1, 1], exit_status = Some 1\<rparr>
   \<and> (\<forall>a. step [Blocks, Returns (Some ''bind: address already in use'')] a
          \<lparr>pc = Waiting, counter = 2,
           goroutines = [Calling, Returned (Some ''bind: address already in use'')],
           calls = [1, 1], exit_status = Some 1\<rparr> = None)"
  (is "start ?fs ?sched = Some ?s0 \<and> _ \<and> step _ _ _ = Some ?s0' \<and> run _ ?sched' _ = Some ?s1
       \<and> start _ ?sched1 = _ \<and> _")
proof -
  have h1: "start ?fs ?sched = Some ?s0"
    by (simp add: start_def init_def step_def main_step_def go_step_def)
  have h2: "(1::nat) < length ?fs"
    by simp
  have h3: "start ?fs ?sched1 = Some ?s1"
    by (simp add: start_def init_def step_def main_step_def go_step_def)
  have r: "goroutines ?s0 ! 1 = Returned (Some ''bind: address already in use'')"
    by simp
  have e: "exit_status ?s0 = None"
    by simp
  have run: "run ?fs ?sched' ?s0 = Some ?s1"
    by (simp add: step_def go_step_def)
  note at_s0 = start_fail_fast [OF h1 h2, THEN conjunct2, THEN conjunct2, THEN conjunct1,
      rule_format, OF r]
  have next_step: "step ?fs (Go 1) ?s0 = Some (?s0\<lparr>exit_status := Some 1\<rparr>)"
    by (rule at_s0 [THEN conjunct2, THEN conjunct2, THEN conjunct1, rule_format, OF e])
  have ex1: "exit_status ?s1 \<noteq> None"
    by simp
  have stuck: "step ?fs a ?s1 = None" for a
    by (rule start_fail_fast [OF h3 h2, THEN conjunct1, rule_format, OF ex1])
  from h1 h2 next_step run h3 stuck show ?thesis
    by simp
qed

end
